theory Spec2Isabelle
  imports Main
begin

section \<open>Values, errors and the world outside the process\<close>

text \<open>
  The module \<open>drugbank_downloader.api\<close> is sequential glue code around four libraries:
  \<open>bioversions\<close> (latest version), \<open>pystow\<close> (\<open>get_config\<close>, \<open>ensure\<close>),
  \<open>zipfile\<close> and \<open>lxml\<close>. The functions of the module are embedded as state
  transformers that return an error or a value. What the libraries do is not in the
  repository: they are parameters of the model (the record \<open>deps\<close>), and every call the
  module makes to one of them is written into a log together with its outcome.

  A path (\<open>pathlib.Path\<close>) is the list of its segments.
\<close>

type_synonym path = "string list"

datatype error =
    ImportError string
  | ConfigError string string
  | RuntimeError string
  | FileNotFoundError path
  | KeyError string
  | TypeError string
  | OtherError string

text \<open>
  The argument \<open>prefix\<close> of \<open>download_drugbank\<close> is \<open>Union[None, str, Sequence[str]]\<close>.
\<close>

datatype prefix_arg = PrefixNone | PrefixStr string | PrefixSeq "string list"

text \<open>
  The four parameters shared by the public functions, each \<open>None\<close> by default.
\<close>

record args =
  username :: "string option"
  password :: "string option"
  version :: "string option"
  prefix :: prefix_arg

text \<open>
  One call \<open>pystow.ensure(*subkeys, url=..., name=..., download_kwargs={"backend": ...,
  "stream": ..., "auth": ...}, force=...)\<close>.
\<close>

record ensure_call =
  subkeys :: "string list"
  url :: string
  name :: string
  backend :: string
  stream :: bool
  auth :: "string \<times> string"
  force :: bool

text \<open>
  The machine: the size of every file on disk, the URLs transferred over the network so
  far, and the handles that are open (a handle is a number, never reused).
\<close>

record machine =
  files :: "path \<rightharpoonup> nat"
  transfers :: "string list"
  open_handles :: "nat set"
  next_handle :: nat

datatype element = Element string "element list"

datatype element_tree = ElementTree element

fun getroot :: "element_tree \<Rightarrow> element" where
  "getroot (ElementTree r) = r"

record zip_file =
  zip_id :: nat
  members :: "string \<rightharpoonup> string"

record member_stream =
  stream_id :: nat
  content :: string

text \<open>
  The libraries, as parameters. \<open>bioversions\<close> is what \<open>import bioversions\<close> gives: an
  error, or the module's \<open>get_version\<close>, which may use the network and the disk. \<open>get_config d m k passthrough\<close> is
  \<open>pystow.get_config(m, k, passthrough=..., raise_on_missing=True)\<close>. \<open>read_zip\<close> is what
  \<open>zipfile.ZipFile\<close> makes of the file at a path: an error or the archive's members.
  \<open>xml_parse\<close> is \<open>lxml.etree.parse\<close> on the bytes of a stream. \<open>dedent\<close> is
  \<open>textwrap.dedent\<close>.
\<close>

record deps =
  bioversions :: "error + (string \<Rightarrow> machine \<Rightarrow> (error + string) \<times> machine)"
  get_config :: "string \<Rightarrow> string \<Rightarrow> string option \<Rightarrow> error + string"
  ensure :: "ensure_call \<Rightarrow> machine \<Rightarrow> (error + path) \<times> machine"
  read_zip :: "path \<Rightarrow> machine \<Rightarrow> error + (string \<rightharpoonup> string)"
  xml_parse :: "string \<Rightarrow> error + element_tree"
  dedent :: "string \<Rightarrow> string"

text \<open>
  The calls the module makes outside itself. An event is a call and the error it raised,
  if any.
\<close>

datatype call =
    Import string
  | GetVersion string
  | GetConfig string string "string option"
  | Ensure ensure_call
  | Stat path
  | Unlink path
  | ZipFile path
  | ZipOpen nat string
  | Parse nat
  | Block nat
  | Close nat

type_synonym event = "call \<times> error option"

record world =
  machine :: machine
  events :: "event list"

section \<open>Sequencing\<close>

type_synonym 'a prog = "world \<Rightarrow> (error + 'a) \<times> world"

definition return :: "'a \<Rightarrow> 'a prog" where
  "return x w = (Inr x, w)"

definition raise :: "error \<Rightarrow> 'a prog" where
  "raise e w = (Inl e, w)"

text \<open>A statement after another: an exception of the first skips the second.\<close>

definition bind_prog :: "'a prog \<Rightarrow> ('a \<Rightarrow> 'b prog) \<Rightarrow> 'b prog" where
  "bind_prog m f w = (case m w of (Inl e, w') \<Rightarrow> (Inl e, w') | (Inr x, w') \<Rightarrow> f x w')"

definition outcome :: "error + 'a \<Rightarrow> error option" where
  "outcome r = (case r of Inl e \<Rightarrow> Some e | Inr _ \<Rightarrow> None)"

text \<open>A call outside the module: it acts on the machine and is logged with its outcome.\<close>

definition external :: "call \<Rightarrow> (machine \<Rightarrow> (error + 'a) \<times> machine) \<Rightarrow> 'a prog" where
  "external c f w =
     (case f (machine w) of
        (r, m') \<Rightarrow> (r, \<lparr>machine = m', events = events w @ [(c, outcome r)]\<rparr>))"

text \<open>A run from a machine state, with an empty log.\<close>

definition run :: "'a prog \<Rightarrow> machine \<Rightarrow> (error + 'a) \<times> world" where
  "run p m = p \<lparr>machine = m, events = []\<rparr>"

section \<open>pathlib\<close>

text \<open>\<open>path.stat().st_size\<close> and \<open>path.unlink()\<close>; both raise when there is no file.\<close>

definition stat_size :: "path \<Rightarrow> nat prog" where
  "stat_size p =
     external (Stat p)
       (\<lambda>m. (case files m p of None \<Rightarrow> Inl (FileNotFoundError p) | Some n \<Rightarrow> Inr n, m))"

definition unlink :: "path \<Rightarrow> unit prog" where
  "unlink p =
     external (Unlink p)
       (\<lambda>m. case files m p of
               None \<Rightarrow> (Inl (FileNotFoundError p), m)
             | Some _ \<Rightarrow> (Inr (), m\<lparr>files := (files m)(p := None)\<rparr>))"

section \<open>download_drugbank\<close>

text \<open>
  Lines 97 to 105: an explicit version is used as it is. Otherwise \<open>bioversions\<close> is
  imported; an \<open>ImportError\<close> of the import is caught and replaced by one with the
  instruction to install the package, any other error of the import is not caught, and
  \<open>bioversions.get_version("drugbank")\<close> is called outside the \<open>try\<close>.
\<close>

definition install_hint :: string where
  "install_hint =
     ''must first `pip install bioversions` to get latest DrugBank version automatically''"

definition resolve_version :: "deps \<Rightarrow> string option \<Rightarrow> string prog" where
  "resolve_version d ver =
     (case ver of
        Some v \<Rightarrow> return v
      | None \<Rightarrow>
          (\<lambda>w. case external (Import ''bioversions'') (\<lambda>m. (bioversions d, m)) w of
                  (Inl (ImportError _), w') \<Rightarrow> (Inl (ImportError install_hint), w')
                | (Inl e, w') \<Rightarrow> (Inl e, w')
                | (Inr get_version, w') \<Rightarrow>
                    external (GetVersion ''drugbank'') (get_version ''drugbank'') w'))"

text \<open>Lines 107 to 109: \<open>version.replace(".", "-")\<close> inside the URL template.\<close>

definition replace_char :: "char \<Rightarrow> char \<Rightarrow> string \<Rightarrow> string" where
  "replace_char old new s = map (\<lambda>c. if c = old then new else c) s"

definition drugbank_url :: "string \<Rightarrow> string" where
  "drugbank_url v =
     ''https://go.drugbank.com/releases/'' @ replace_char (CHR ''.'') (CHR ''-'') v
       @ ''/downloads/all-full-database''"

text \<open>Lines 111 to 114.\<close>

fun normalize_prefix :: "prefix_arg \<Rightarrow> string list" where
  "normalize_prefix PrefixNone = [''drugbank'']"
| "normalize_prefix (PrefixStr s) = [s]"
| "normalize_prefix (PrefixSeq xs) = xs"

text \<open>
  Lines 139 to 158: the text of the f-string, every line as the source has it (indented
  by 12 blanks, the version put in as it is), and the message of the \<open>RuntimeError\<close>,
  which is what \<open>dedent\<close> makes of that text.
\<close>

definition unapproved_text :: "string \<Rightarrow> string" where
  "unapproved_text v =
     [CHR 0x0A, CHR 0x0A]
     @ ''            Your DrugBank credentials were either invalid, or you'' @ [CHR 0x0A]
     @ ''            have not been approved for downloads.'' @ [CHR 0x0A, CHR 0x0A]
     @ ''            Even after signing up for a DrugBank account and getting'' @ [CHR 0x0A]
     @ ''            a valid username/password combination, DrugBank still has'' @ [CHR 0x0A]
     @ ''            to manually approve your account to make an academic'' @ [CHR 0x0A]
     @ ''            download of its data.'' @ [CHR 0x0A, CHR 0x0A]
     @ ''            You can tell if your credentials have not been approved by'' @ [CHR 0x0A]
     @ ''            visiting https://go.drugbank.com/releases/'' @ v @ ''#full.'' @ [CHR 0x0A]
     @ ''            If the download button says '' @ [CHR 0x22] @ ''Ineligible for download''
     @ [CHR 0x22] @ '', then'' @ [CHR 0x0A]
     @ ''            you might need to contact DrugBank to get approved, e.g.,'' @ [CHR 0x0A]
     @ ''            via https://go.drugbank.com/contact.'' @ [CHR 0x0A]
     @ ''            ''"

definition unapproved_message :: "deps \<Rightarrow> string \<Rightarrow> string" where
  "unapproved_message d v = dedent d (unapproved_text v)"

text \<open>Lines 119 to 130: the arguments of the call of \<open>ensure\<close>.\<close>

definition ensure_arguments ::
    "string list \<Rightarrow> string \<Rightarrow> string \<Rightarrow> string \<Rightarrow> bool \<Rightarrow> ensure_call" where
  "ensure_arguments pre v usr pwd frc =
     \<lparr>subkeys = pre @ [v], url = drugbank_url v, name = ''full database.xml.zip'',
      backend = ''requests'', stream = True, auth = (usr, pwd), force = frc\<rparr>"

text \<open>Lines 136 to 160: the size check on the path that \<open>ensure\<close> returned.\<close>

definition check_size :: "deps \<Rightarrow> string \<Rightarrow> path \<Rightarrow> path prog" where
  "check_size d v p =
     bind_prog (stat_size p) (\<lambda>size.
       if size < 5 * 1024 * 1024
       then bind_prog (unlink p) (\<lambda>_. raise (RuntimeError (unapproved_message d v)))
       else return p)"

text \<open>
  Lines 97 to 130: version, URL, prefix, credentials and the call of \<open>ensure\<close>. The
  result is the version (the message of line 152 needs it) and the path.
\<close>

definition fetch :: "deps \<Rightarrow> args \<Rightarrow> bool \<Rightarrow> (string \<times> path) prog" where
  "fetch d a frc =
     bind_prog (resolve_version d (version a)) (\<lambda>v.
     bind_prog (external (GetConfig ''drugbank'' ''username'' (username a))
                  (\<lambda>m. (get_config d ''drugbank'' ''username'' (username a), m))) (\<lambda>usr.
     bind_prog (external (GetConfig ''drugbank'' ''password'' (password a))
                  (\<lambda>m. (get_config d ''drugbank'' ''password'' (password a), m))) (\<lambda>pwd.
     bind_prog (external (Ensure (ensure_arguments (normalize_prefix (prefix a)) v usr pwd frc))
                  (ensure d (ensure_arguments (normalize_prefix (prefix a)) v usr pwd frc)))
       (\<lambda>p. return (v, p)))))"

text \<open>Lines 68 to 160.\<close>

definition download_drugbank :: "deps \<Rightarrow> args \<Rightarrow> bool \<Rightarrow> path prog" where
  "download_drugbank d a frc = bind_prog (fetch d a frc) (\<lambda>(v, p). check_size d v p)"

section \<open>open_drugbank, parse_drugbank, get_drugbank_root\<close>

text \<open>
  \<open>zipfile.ZipFile(path)\<close> and \<open>zip_file.open(name)\<close>: each gives a new open handle, or
  raises and leaves nothing open. A member that is not in the archive is a \<open>KeyError\<close>.
\<close>

definition new_handle :: "machine \<Rightarrow> machine" where
  "new_handle m =
     m\<lparr>open_handles := insert (next_handle m) (open_handles m),
       next_handle := Suc (next_handle m)\<rparr>"

definition open_zip :: "deps \<Rightarrow> path \<Rightarrow> zip_file prog" where
  "open_zip d p =
     external (ZipFile p)
       (\<lambda>m. case read_zip d p m of
               Inl e \<Rightarrow> (Inl e, m)
             | Inr ms \<Rightarrow> (Inr \<lparr>zip_id = next_handle m, members = ms\<rparr>, new_handle m))"

definition open_member :: "zip_file \<Rightarrow> string \<Rightarrow> member_stream prog" where
  "open_member z n =
     external (ZipOpen (zip_id z) n)
       (\<lambda>m. case members z n of
               None \<Rightarrow> (Inl (KeyError n), m)
             | Some bytes \<Rightarrow> (Inr \<lparr>stream_id = next_handle m, content = bytes\<rparr>, new_handle m))"

definition close :: "nat \<Rightarrow> world \<Rightarrow> world" where
  "close h w =
     \<lparr>machine = (machine w)\<lparr>open_handles := open_handles (machine w) - {h}\<rparr>,
      events = events w @ [(Close h, None)]\<rparr>"

text \<open>
  \<open>with acquire as r: block\<close> for a resource whose \<open>__exit__\<close> closes it and does not
  swallow the exception: the block's outcome is the outcome of the statement.
\<close>

definition with_closing :: "'r prog \<Rightarrow> ('r \<Rightarrow> nat) \<Rightarrow> ('r \<Rightarrow> 'a prog) \<Rightarrow> 'a prog" where
  "with_closing acquire handle block w =
     (case acquire w of
        (Inl e, w1) \<Rightarrow> (Inl e, w1)
      | (Inr r, w1) \<Rightarrow> (case block r w1 of (res, w2) \<Rightarrow> (res, close (handle r) w2)))"

text \<open>
  Lines 54 to 65. The generator of the context manager runs up to \<open>yield file\<close>, the
  caller's block runs with the stream, and the generator is resumed (or the block's
  exception is thrown into it) at the \<open>yield\<close>, inside both \<open>with\<close> statements. The
  caller's block is the argument \<open>block\<close>. \<open>force\<close> is not passed on to
  \<open>download_drugbank\<close>, so it has its default \<open>False\<close>.
\<close>

definition open_drugbank :: "deps \<Rightarrow> args \<Rightarrow> (member_stream \<Rightarrow> 'a prog) \<Rightarrow> 'a prog" where
  "open_drugbank d a block =
     bind_prog (download_drugbank d a False) (\<lambda>p.
       with_closing (open_zip d p) zip_id (\<lambda>z.
         with_closing (open_member z ''full database.xml'') stream_id block))"

text \<open>A block of the caller that acts on the machine; the log records that it ran.\<close>

definition caller_block ::
    "(member_stream \<Rightarrow> machine \<Rightarrow> (error + 'a) \<times> machine) \<Rightarrow> member_stream \<Rightarrow> 'a prog" where
  "caller_block g f = external (Block (stream_id f)) (g f)"

text \<open>Lines 38 to 51 (the two calls of \<open>logger.info\<close> have no part in the result).\<close>

definition parse_drugbank :: "deps \<Rightarrow> args \<Rightarrow> element_tree prog" where
  "parse_drugbank d a =
     open_drugbank d a
       (\<lambda>f. external (Parse (stream_id f)) (\<lambda>m. (xml_parse d (content f), m)))"

text \<open>Lines 25 to 35.\<close>

definition get_drugbank_root :: "deps \<Rightarrow> args \<Rightarrow> element prog" where
  "get_drugbank_root d a = bind_prog (parse_drugbank d a) (\<lambda>t. return (getroot t))"

text \<open>
  The parameter names of the four signatures (lines 25 to 29, 38 to 42, 55 to 59 and
  68 to 73), and Python's check of the keywords of a call: a keyword that is not a
  parameter of the function is a \<open>TypeError\<close>.
\<close>

definition get_drugbank_root_params :: "string list" where
  "get_drugbank_root_params = [''username'', ''password'', ''version'', ''prefix'']"

definition parse_drugbank_params :: "string list" where
  "parse_drugbank_params = [''username'', ''password'', ''version'', ''prefix'']"

definition open_drugbank_params :: "string list" where
  "open_drugbank_params = [''username'', ''password'', ''version'', ''prefix'']"

definition download_drugbank_params :: "string list" where
  "download_drugbank_params = [''username'', ''password'', ''version'', ''prefix'', ''force'']"

definition check_keywords :: "string list \<Rightarrow> string list \<Rightarrow> error + unit" where
  "check_keywords params keywords =
     (case filter (\<lambda>k. k \<notin> set params) keywords of
        [] \<Rightarrow> Inr ()
      | k # _ \<Rightarrow> Inl (TypeError k))"

section \<open>The libraries as the specification describes them\<close>

text \<open>
  Modelled from the spec: \<open>pystow.get_config\<close> with \<open>raise_on_missing=True\<close>, which is
  not code of this repository. The spec's words (4.2): for each credential, if the
  argument is absent, a named configuration source is consulted under a fixed
  namespace/key pair, and a missing-configuration error is raised if neither source has a
  value. \<open>cfg\<close> is the configuration source.
\<close>

definition configured ::
    "(string \<Rightarrow> string \<Rightarrow> string option) \<Rightarrow> string \<Rightarrow> string \<Rightarrow> string option \<Rightarrow> error + string" where
  "configured cfg m k passthrough =
     (case passthrough of
        Some x \<Rightarrow> Inr x
      | None \<Rightarrow> (case cfg m k of Some x \<Rightarrow> Inr x | None \<Rightarrow> Inl (ConfigError m k)))"

text \<open>
  Modelled from the spec: \<open>pystow.ensure\<close>, which is not code of this repository. The
  spec's words (4.3, 6): the file lives under the cache root at the path segments
  \<open><prefix...>/<version>/full database.xml.zip\<close>; it is downloaded only if it is not
  already present, or if forced; if the path exists and force is false, no network
  transfer occurs. \<open>server u c\<close> is what a transfer from the URL \<open>u\<close> with the
  credentials \<open>c\<close> gives: an error, or a body of some size, which is written to the path.
  Every transfer is recorded in \<open>transfers\<close>.
\<close>

definition cache_path :: "path \<Rightarrow> ensure_call \<Rightarrow> path" where
  "cache_path root ec = root @ subkeys ec @ [name ec]"

definition cached_ensure ::
    "path \<Rightarrow> (string \<Rightarrow> string \<times> string \<Rightarrow> error + nat) \<Rightarrow> ensure_call \<Rightarrow> machine
       \<Rightarrow> (error + path) \<times> machine" where
  "cached_ensure root server ec m =
     (if files m (cache_path root ec) \<noteq> None \<and> \<not> force ec
      then (Inr (cache_path root ec), m)
      else (case server (url ec) (auth ec) of
              Inl e \<Rightarrow> (Inl e, m\<lparr>transfers := transfers m @ [url ec]\<rparr>)
            | Inr n \<Rightarrow>
                (Inr (cache_path root ec),
                 m\<lparr>files := (files m)(cache_path root ec \<mapsto> n),
                   transfers := transfers m @ [url ec]\<rparr>)))"

section \<open>The invariant of the cache\<close>

text \<open>
  What the specification asks of a cache path: there is no file at it, or a file of at
  least \<open>5 * 1024 * 1024\<close> bytes.
\<close>

definition valid_or_absent :: "machine \<Rightarrow> path \<Rightarrow> bool" where
  "valid_or_absent m q = (case files m q of None \<Rightarrow> True | Some n \<Rightarrow> 5 * 1024 * 1024 \<le> n)"

section \<open>Errors of the libraries in the log\<close>

text \<open>
  The module has one \<open>except\<close> clause (line 100): an \<open>ImportError\<close> raised by
  \<open>import bioversions\<close> is caught and replaced. \<open>caught\<close> says whether an event is such
  an error. \<open>unchanged_errors\<close> says of the outcome of a run that every other error in
  the log is the error the run ended with.
\<close>

fun caught :: "event \<Rightarrow> bool" where
  "caught (Import n, Some (ImportError msg)) = True"
| "caught _ = False"

definition unchanged_errors :: "(error + 'a) \<times> world \<Rightarrow> bool" where
  "unchanged_errors rw =
     (\<forall>ev \<in> set (events (snd rw)).
        case snd ev of None \<Rightarrow> True | Some e \<Rightarrow> caught ev \<or> fst rw = Inl e)"

text \<open>
  The same for a program started in any world, about the events it adds. It is the
  invariant of the proofs: sequencing and the \<open>with\<close> statement keep it.
\<close>

definition faithful :: "'a prog \<Rightarrow> bool" where
  "faithful p =
     (\<forall>w r w'. p w = (r, w') \<longrightarrow>
        (\<exists>new. events w' = events w @ new
             \<and> (\<forall>ev \<in> set new. \<forall>e. snd ev = Some e \<longrightarrow> caught ev \<or> r = Inl e)))"

section \<open>Concrete environments\<close>

text \<open>
  Concrete inputs on which the theorems below are evaluated: a configuration with both
  credentials and one with none, a server that answers every transfer with a body of a
  given size and one that fails, and libraries put together from them. In
  \<open>example_deps\<close> the package \<open>bioversions\<close> is not installed; the cache root is
  \<open>pystow\<close>; every archive holds the member \<open>full database.xml\<close>.
\<close>

definition example_config :: "string \<Rightarrow> string \<Rightarrow> string option" where
  "example_config m k =
     (if m = ''drugbank'' \<and> k = ''username'' then Some ''alice''
      else if m = ''drugbank'' \<and> k = ''password'' then Some ''secret''
      else None)"

definition no_config :: "string \<Rightarrow> string \<Rightarrow> string option" where
  "no_config m k = None"

definition constant_server :: "nat \<Rightarrow> string \<Rightarrow> string \<times> string \<Rightarrow> error + nat" where
  "constant_server n u c = Inr n"

definition failing_server :: "error \<Rightarrow> string \<Rightarrow> string \<times> string \<Rightarrow> error + nat" where
  "failing_server e u c = Inl e"

definition example_archive :: "path \<Rightarrow> machine \<Rightarrow> error + (string \<rightharpoonup> string)" where
  "example_archive p m = Inr [''full database.xml'' \<mapsto> ''<drugbank/>'']"

definition example_parser :: "string \<Rightarrow> error + element_tree" where
  "example_parser s =
     (if s = ''<drugbank/>'' then Inr (ElementTree (Element ''drugbank'' []))
      else Inl (OtherError ''XMLSyntaxError''))"

text \<open>
  What \<open>textwrap.dedent\<close> does to a text whose lines are blank or indented by 12
  blanks: up to \<open>n\<close> blanks are taken from the start of every line.
\<close>

fun strip_margin :: "nat \<Rightarrow> nat \<Rightarrow> string \<Rightarrow> string" where
  "strip_margin n k [] = []"
| "strip_margin n k (c # cs) =
     (if c = CHR 0x0A then c # strip_margin n n cs
      else if 0 < k \<and> c = CHR '' '' then strip_margin n (k - 1) cs
      else c # strip_margin n 0 cs)"

definition example_dedent :: "string \<Rightarrow> string" where
  "example_dedent s = strip_margin 12 12 s"

definition example_deps ::
    "(string \<Rightarrow> string \<Rightarrow> string option) \<Rightarrow> (string \<Rightarrow> string \<times> string \<Rightarrow> error + nat) \<Rightarrow> deps" where
  "example_deps cfg srv =
     \<lparr>bioversions = Inl (ImportError ''No module named bioversions''),
      get_config = configured cfg,
      ensure = cached_ensure [''pystow''] srv,
      read_zip = example_archive,
      xml_parse = example_parser,
      dedent = example_dedent\<rparr>"

definition example_args :: args where
  "example_args =
     \<lparr>username = None, password = None, version = Some ''5.1.8'', prefix = PrefixNone\<rparr>"

definition no_args :: args where
  "no_args = \<lparr>username = None, password = None, version = None, prefix = PrefixNone\<rparr>"

definition example_path :: path where
  "example_path = [''pystow'', ''drugbank'', ''5.1.8'', ''full database.xml.zip'']"

definition empty_machine :: machine where
  "empty_machine = \<lparr>files = Map.empty, transfers = [], open_handles = {}, next_handle = 0\<rparr>"

definition stale_machine :: machine where
  "stale_machine = empty_machine\<lparr>files := [example_path \<mapsto> 10]\<rparr>"

definition explicit_args :: args where
  "explicit_args =
     \<lparr>username = Some ''bob'', password = Some ''hunter2'', version = Some ''5.1.8'',
      prefix = PrefixStr ''bio''\<rparr>"

definition example_lookup :: "string \<Rightarrow> machine \<Rightarrow> (error + string) \<times> machine" where
  "example_lookup key m =
     (if key = ''drugbank'' then Inr ''5.1.10'' else Inl (KeyError key), m)"

text \<open>Blocks of a caller of \<open>open_drugbank\<close>: one raises, one reads the stream.\<close>

definition raising_block :: "member_stream \<Rightarrow> string prog" where
  "raising_block f = raise (OtherError ''interrupted'')"

definition reading_block :: "member_stream \<Rightarrow> string prog" where
  "reading_block f = return (content f)"

definition failing_block :: "member_stream \<Rightarrow> machine \<Rightarrow> (error + string) \<times> machine" where
  "failing_block f m = (Inl (OtherError ''disk full''), m)"

section \<open>Basic facts\<close>

lemmas prog_defs = bind_prog_def external_def outcome_def return_def raise_def

lemmas download_defs = download_drugbank_def fetch_def check_size_def stat_size_def unlink_def

lemmas example_defs = example_deps_def example_args_def example_config_def no_config_def
  constant_server_def failing_server_def example_archive_def example_parser_def
  example_path_def empty_machine_def stale_machine_def no_args_def configured_def
  cached_ensure_def cache_path_def ensure_arguments_def explicit_args_def
  example_lookup_def raising_block_def reading_block_def failing_block_def

lemma check_size_present:
  "files (machine w) p = Some n \<Longrightarrow>
   check_size d v p w =
     (if n < 5 * 1024 * 1024
      then (Inl (RuntimeError (unapproved_message d v)),
            \<lparr>machine = (machine w)\<lparr>files := (files (machine w))(p := None)\<rparr>,
             events = events w @ [(Stat p, None), (Unlink p, None)]\<rparr>)
      else (Inr p, \<lparr>machine = machine w, events = events w @ [(Stat p, None)]\<rparr>))"
  by (simp add: check_size_def stat_size_def unlink_def prog_defs)

lemma check_size_absent:
  "files (machine w) p = None \<Longrightarrow>
   check_size d v p w =
     (Inl (FileNotFoundError p),
      \<lparr>machine = machine w, events = events w @ [(Stat p, Some (FileNotFoundError p))]\<rparr>)"
  by (simp add: check_size_def stat_size_def prog_defs)

lemma check_size_bioversions:
  "check_size (d\<lparr>bioversions := b\<rparr>) v p = check_size d v p"
  by (simp add: check_size_def unapproved_message_def cong: if_cong)

lemma download_after_fetch:
  "fetch d a frc w = (Inr (v, p), w1) \<Longrightarrow> download_drugbank d a frc w = check_size d v p w1"
  by (simp add: download_drugbank_def bind_prog_def)

lemma resolve_version_frame:
  assumes "resolve_version d ver w = (r, w0)"
  shows "(Ensure ec, oc) \<in> set (events w0) \<longleftrightarrow> (Ensure ec, oc) \<in> set (events w)"
  using assms
  by (auto simp: resolve_version_def prog_defs
      split: option.splits sum.splits error.splits prod.splits)

lemma download_success:
  assumes rv: "resolve_version d (version a) w = (Inr v, w0)"
    and dl: "download_drugbank d a frc w = (Inr p, w1)"
  shows "\<exists>usr pwd n.
           get_config d ''drugbank'' ''username'' (username a) = Inr usr
         \<and> get_config d ''drugbank'' ''password'' (password a) = Inr pwd
         \<and> ensure d (ensure_arguments (normalize_prefix (prefix a)) v usr pwd frc) (machine w0)
             = (Inr p, machine w1)
         \<and> files (machine w1) p = Some n \<and> 5 * 1024 * 1024 \<le> n"
  using assms
  by (auto simp: download_defs prog_defs split: sum.splits prod.splits option.splits if_splits)

lemma download_resolved:
  assumes rv: "resolve_version d (version a) w = (Inr v, w0)"
    and gu: "get_config d ''drugbank'' ''username'' (username a) = Inr usr"
    and gp: "get_config d ''drugbank'' ''password'' (password a) = Inr pwd"
    and en: "ensure d (ensure_arguments (normalize_prefix (prefix a)) v usr pwd frc) (machine w0)
               = (r, m1)"
  shows "machine (snd (download_drugbank d a frc w))
           = (case r of
                Inl e \<Rightarrow> m1
              | Inr p \<Rightarrow>
                  (case files m1 p of
                     None \<Rightarrow> m1
                   | Some n \<Rightarrow>
                       if n < 5 * 1024 * 1024 then m1\<lparr>files := (files m1)(p := None)\<rparr> else m1))"
    and "fst (download_drugbank d a frc w)
           = (case r of
                Inl e \<Rightarrow> Inl e
              | Inr p \<Rightarrow>
                  (case files m1 p of
                     None \<Rightarrow> Inl (FileNotFoundError p)
                   | Some n \<Rightarrow>
                       if n < 5 * 1024 * 1024 then Inl (RuntimeError (unapproved_message d v))
                       else Inr p))"
  using assms
  by (auto simp: download_defs prog_defs split: sum.splits prod.splits option.splits if_splits)

lemma faithful_return: "faithful (return x)"
  by (simp add: faithful_def return_def)

lemma faithful_raise: "faithful (raise e)"
  by (simp add: faithful_def raise_def)

lemma faithful_external: "faithful (external c f)"
  by (auto simp: faithful_def external_def outcome_def split: prod.splits sum.splits)

lemma faithful_bind:
  assumes m: "faithful m" and f: "\<And>x. faithful (f x)"
  shows "faithful (bind_prog m f)"
  unfolding faithful_def
proof (intro allI impI)
  fix w r w'
  assume run: "bind_prog m f w = (r, w')"
  obtain r1 w1 where m1: "m w = (r1, w1)"
    by (cases "m w")
  from m m1 obtain new1 where n1: "events w1 = events w @ new1"
    "\<forall>ev \<in> set new1. \<forall>e. snd ev = Some e \<longrightarrow> caught ev \<or> r1 = Inl e"
    unfolding faithful_def by blast
  show "\<exists>new. events w' = events w @ new
          \<and> (\<forall>ev \<in> set new. \<forall>e. snd ev = Some e \<longrightarrow> caught ev \<or> r = Inl e)"
  proof (cases r1)
    case (Inl e1)
    with run m1 have "r = Inl e1" "w' = w1"
      by (simp_all add: bind_prog_def)
    with n1 Inl show ?thesis by auto
  next
    case (Inr x)
    with run m1 have fx: "f x w1 = (r, w')"
      by (simp add: bind_prog_def)
    from f [of x] fx obtain new2 where n2: "events w' = events w1 @ new2"
      "\<forall>ev \<in> set new2. \<forall>e. snd ev = Some e \<longrightarrow> caught ev \<or> r = Inl e"
      unfolding faithful_def by blast
    from n1 Inr have "\<forall>ev \<in> set new1. \<forall>e. snd ev = Some e \<longrightarrow> caught ev"
      by auto
    with n1 n2 have "events w' = events w @ (new1 @ new2)
        \<and> (\<forall>ev \<in> set (new1 @ new2). \<forall>e. snd ev = Some e \<longrightarrow> caught ev \<or> r = Inl e)"
      by auto
    then show ?thesis by blast
  qed
qed

lemma faithful_with_closing:
  assumes a: "faithful acquire" and b: "\<And>r. faithful (block r)"
  shows "faithful (with_closing acquire handle block)"
  unfolding faithful_def
proof (intro allI impI)
  fix w r w'
  assume run: "with_closing acquire handle block w = (r, w')"
  obtain r1 w1 where a1: "acquire w = (r1, w1)"
    by (cases "acquire w")
  from a a1 obtain new1 where n1: "events w1 = events w @ new1"
    "\<forall>ev \<in> set new1. \<forall>e. snd ev = Some e \<longrightarrow> caught ev \<or> r1 = Inl e"
    unfolding faithful_def by blast
  show "\<exists>new. events w' = events w @ new
          \<and> (\<forall>ev \<in> set new. \<forall>e. snd ev = Some e \<longrightarrow> caught ev \<or> r = Inl e)"
  proof (cases r1)
    case (Inl e1)
    with run a1 have "r = Inl e1" "w' = w1"
      by (simp_all add: with_closing_def)
    with n1 Inl show ?thesis by auto
  next
    case (Inr x)
    obtain w2 where bx: "block x w1 = (r, w2)" and w': "w' = close (handle x) w2"
      using run a1 Inr by (auto simp: with_closing_def split: prod.splits)
    from b [of x] bx obtain new2 where n2: "events w2 = events w1 @ new2"
      "\<forall>ev \<in> set new2. \<forall>e. snd ev = Some e \<longrightarrow> caught ev \<or> r = Inl e"
      unfolding faithful_def by blast
    from n1 Inr have "\<forall>ev \<in> set new1. \<forall>e. snd ev = Some e \<longrightarrow> caught ev"
      by auto
    with n1 n2 w' have "events w' = events w @ (new1 @ new2 @ [(Close (handle x), None)])
        \<and> (\<forall>ev \<in> set (new1 @ new2 @ [(Close (handle x), None)]).
              \<forall>e. snd ev = Some e \<longrightarrow> caught ev \<or> r = Inl e)"
      by (auto simp: close_def)
    then show ?thesis by blast
  qed
qed

lemma faithful_resolve_version: "faithful (resolve_version d ver)"
  by (auto simp: faithful_def resolve_version_def return_def external_def outcome_def
      split: option.splits sum.splits error.splits prod.splits)

lemma faithful_download: "faithful (download_drugbank d a frc)"
  unfolding download_drugbank_def fetch_def check_size_def stat_size_def unlink_def
  by (intro faithful_bind faithful_resolve_version faithful_external faithful_return
      faithful_raise) (auto intro!: faithful_bind faithful_external faithful_return faithful_raise)

lemma faithful_open:
  "(\<And>f. faithful (block f)) \<Longrightarrow> faithful (open_drugbank d a block)"
  unfolding open_drugbank_def open_zip_def open_member_def
  by (intro faithful_bind faithful_download faithful_with_closing faithful_external)

lemma faithful_parse: "faithful (parse_drugbank d a)"
  unfolding parse_drugbank_def by (intro faithful_open faithful_external)

lemma faithful_root: "faithful (get_drugbank_root d a)"
  unfolding get_drugbank_root_def by (intro faithful_bind faithful_parse faithful_return)

lemma faithful_run: "faithful p \<Longrightarrow> unchanged_errors (run p m)"
proof -
  assume p: "faithful p"
  obtain r w' where rw: "p \<lparr>machine = m, events = []\<rparr> = (r, w')"
    by (cases "p \<lparr>machine = m, events = []\<rparr>")
  from p rw obtain new where "events w' = [] @ new"
    "\<forall>ev \<in> set new. \<forall>e. snd ev = Some e \<longrightarrow> caught ev \<or> r = Inl e"
    unfolding faithful_def by fastforce
  then show ?thesis
    by (auto simp: unchanged_errors_def run_def rw split: option.splits)
qed

lemma unchanged_errorsD:
  "unchanged_errors rw \<Longrightarrow> (c, Some e) \<in> set (events (snd rw)) \<Longrightarrow> \<not> caught (c, Some e)
     \<Longrightarrow> fst rw = Inl e"
  by (fastforce simp: unchanged_errors_def)

lemma faithful_events:
  "faithful p \<Longrightarrow> \<exists>new. events (snd (p w)) = events w @ new"
  unfolding faithful_def by (metis prod.collapse)

lemma root_after_download:
  "\<exists>rest. events (snd (get_drugbank_root d a w))
             = events (snd (download_drugbank d a False w)) @ rest"
proof (cases "download_drugbank d a False w")
  case (Pair r w1)
  show ?thesis
  proof (cases r)
    case (Inl e)
    with Pair have "get_drugbank_root d a w = (Inl e, w1)"
      by (simp add: get_drugbank_root_def parse_drugbank_def open_drugbank_def bind_prog_def)
    with Pair show ?thesis by simp
  next
    case (Inr p)
    let ?rest = "bind_prog
        (with_closing (open_zip d p) zip_id
           (\<lambda>z. with_closing (open_member z ''full database.xml'') stream_id
                  (\<lambda>f. external (Parse (stream_id f)) (\<lambda>m. (xml_parse d (content f), m)))))
        (\<lambda>t. return (getroot t))"
    from Pair Inr have eq: "get_drugbank_root d a w = ?rest w1"
      by (simp add: get_drugbank_root_def parse_drugbank_def open_drugbank_def bind_prog_def)
    have "faithful ?rest"
      unfolding open_zip_def open_member_def
      by (intro faithful_bind faithful_with_closing faithful_external faithful_return)
    from faithful_events [OF this, of w1] eq Pair show ?thesis by simp
  qed
qed

lemma download_resolve_error:
  "resolve_version d (version a) w = (Inl e, w0) \<Longrightarrow> download_drugbank d a frc w = (Inl e, w0)"
  by (simp add: download_drugbank_def fetch_def bind_prog_def)

lemma download_username_error:
  assumes "resolve_version d (version a) w = (Inr v, w0)"
    and "get_config d ''drugbank'' ''username'' (username a) = Inl e"
  shows "machine (snd (download_drugbank d a frc w)) = machine w0"
  using assms by (simp add: download_drugbank_def fetch_def prog_defs)

lemma download_password_error:
  assumes "resolve_version d (version a) w = (Inr v, w0)"
    and "get_config d ''drugbank'' ''password'' (password a) = Inl e"
  shows "machine (snd (download_drugbank d a frc w)) = machine w0"
  using assms
  by (auto simp: download_drugbank_def fetch_def prog_defs split: sum.splits prod.splits)

lemma cached_ensure_files:
  "cached_ensure root srv ec m = (r, m1) \<Longrightarrow>
     (case r of
        Inl e \<Rightarrow> files m1 = files m
      | Inr p \<Rightarrow> p = cache_path root ec
                 \<and> (\<exists>n. files m1 p = Some n)
                 \<and> (\<forall>q. q \<noteq> p \<longrightarrow> files m1 q = files m q))"
  by (auto simp: cached_ensure_def split: if_splits sum.splits)

section \<open>The size check\<close>

text \<open>
  Claim C1. Whenever \<open>ensure\<close> has returned a path at which there is a file of \<open>n\<close>
  bytes, \<open>download_drugbank\<close> raises the \<open>RuntimeError\<close> about unapproved credentials if
  and only if \<open>n < 5 * 1024 * 1024\<close>. Below the threshold the file is gone afterwards;
  from the threshold on, the path is returned and the machine is as \<open>ensure\<close> left it.
\<close>

theorem size_check_threshold:
  assumes "fetch d a frc w = (Inr (v, p), w1)"
    and "files (machine w1) p = Some n"
  shows "(fst (download_drugbank d a frc w) = Inl (RuntimeError (unapproved_message d v))
            \<longleftrightarrow> n < 5 * 1024 * 1024)
       \<and> (n < 5 * 1024 * 1024 \<longrightarrow>
            files (machine (snd (download_drugbank d a frc w))) p = None)
       \<and> (5 * 1024 * 1024 \<le> n \<longrightarrow>
            fst (download_drugbank d a frc w) = Inr p
          \<and> machine (snd (download_drugbank d a frc w)) = machine w1)"
  using assms by (simp add: download_after_fetch check_size_present)

text \<open>
  The two sizes at the threshold: \<open>5 * 1024 * 1024 - 1 = 5242879\<close> bytes are deleted
  and refused, \<open>5242880\<close> bytes pass.
\<close>

theorem size_check_threshold_witness:
  "fst (run (download_drugbank (example_deps example_config (constant_server 5242879))
              example_args False) empty_machine)
     = Inl (RuntimeError (unapproved_message
          (example_deps example_config (constant_server 5242879)) ''5.1.8''))
   \<and> files (machine (snd (run (download_drugbank
              (example_deps example_config (constant_server 5242879))
              example_args False) empty_machine))) example_path = None
   \<and> fst (run (download_drugbank (example_deps example_config (constant_server 5242880))
              example_args False) empty_machine)
     = Inr example_path"
proof -
  let ?w = "\<lparr>machine = empty_machine, events = []\<rparr>"
  let ?below = "example_deps example_config (constant_server 5242879)"
  let ?at = "example_deps example_config (constant_server 5242880)"
  define w1 where "w1 = snd (fetch ?below example_args False ?w)"
  define w2 where "w2 = snd (fetch ?at example_args False ?w)"
  have f1: "fetch ?below example_args False ?w = (Inr (''5.1.8'', example_path), w1)"
    by (simp add: w1_def fetch_def resolve_version_def prog_defs example_defs)
  have s1: "files (machine w1) example_path = Some 5242879"
    by (simp add: w1_def fetch_def resolve_version_def prog_defs example_defs)
  have f2: "fetch ?at example_args False ?w = (Inr (''5.1.8'', example_path), w2)"
    by (simp add: w2_def fetch_def resolve_version_def prog_defs example_defs)
  have s2: "files (machine w2) example_path = Some 5242880"
    by (simp add: w2_def fetch_def resolve_version_def prog_defs example_defs)
  from size_check_threshold [OF f1 s1] size_check_threshold [OF f2 s2]
  show ?thesis by (simp add: run_def)
qed

section \<open>The cache after a call\<close>

text \<open>
  Claim C2. Whenever \<open>ensure\<close> has returned a path, after the call of
  \<open>download_drugbank\<close>, whether it returns or raises, there is no file at that path or
  a file of at least \<open>5 * 1024 * 1024\<close> bytes: the size check deletes a smaller file
  before it raises. With the \<open>ensure\<close> of the specification this holds of every path as
  an invariant and for every outcome of the call: a path that is valid or absent when the
  version has been resolved is valid or absent after the call, also when the call raises
  before or inside \<open>ensure\<close>. With an explicit version, that is the state before the
  call.
\<close>

theorem cache_invariant:
  "(fetch d a frc w = (Inr (v, p), w1) \<longrightarrow>
      valid_or_absent (machine (snd (download_drugbank d a frc w))) p)
   \<and> (ensure d = cached_ensure root srv \<longrightarrow> resolve_version d (version a) w = (r, w0) \<longrightarrow>
        valid_or_absent (machine w0) q \<longrightarrow>
        valid_or_absent (machine (snd (download_drugbank d a frc w))) q)
   \<and> (ensure d = cached_ensure root srv \<longrightarrow> version a = Some v \<longrightarrow>
        valid_or_absent (machine w) q \<longrightarrow>
        valid_or_absent (machine (snd (download_drugbank d a frc w))) q)"
proof -
  have A: "valid_or_absent (machine (snd (download_drugbank d a frc w))) p"
    if f: "fetch d a frc w = (Inr (v, p), w1)" for v p w1
  proof (cases "files (machine w1) p")
    case None
    with f show ?thesis
      by (simp add: valid_or_absent_def download_after_fetch check_size_absent)
  next
    case (Some n)
    with f show ?thesis
      by (simp add: valid_or_absent_def download_after_fetch check_size_present)
  qed
  have B: "valid_or_absent (machine (snd (download_drugbank d a frc w))) q"
    if ens: "ensure d = cached_ensure root srv"
      and rv: "resolve_version d (version a) w = (r, w0)"
      and inv: "valid_or_absent (machine w0) q" for r w0
  proof (cases r)
    case (Inl e)
    with rv inv show ?thesis by (simp add: download_resolve_error)
  next
    case (Inr v')
    note rv' = rv [unfolded Inr]
    show ?thesis
    proof (cases "get_config d ''drugbank'' ''username'' (username a)")
      case (Inl e)
      from download_username_error [OF rv' this] inv show ?thesis by simp
    next
      case gu: (Inr usr)
      show ?thesis
      proof (cases "get_config d ''drugbank'' ''password'' (password a)")
        case (Inl e)
        from download_password_error [OF rv' this] inv show ?thesis by simp
      next
        case gp: (Inr pwd)
        let ?ea = "ensure_arguments (normalize_prefix (prefix a)) v' usr pwd frc"
        obtain r1 m1 where en: "ensure d ?ea (machine w0) = (r1, m1)"
          by (cases "ensure d ?ea (machine w0)")
        from en have ce: "cached_ensure root srv ?ea (machine w0) = (r1, m1)"
          by (simp add: ens)
        from download_resolved(1) [OF rv' gu gp en] cached_ensure_files [OF ce] inv
        show ?thesis
          by (auto simp: valid_or_absent_def split: sum.splits option.splits if_splits)
      qed
    qed
  qed
  have C: "valid_or_absent (machine (snd (download_drugbank d a frc w))) q"
    if ens: "ensure d = cached_ensure root srv" and ver: "version a = Some v"
      and inv: "valid_or_absent (machine w) q" for v
  proof -
    have "resolve_version d (version a) w = (Inr v, w)"
      by (simp add: ver resolve_version_def return_def)
    from B [OF ens this inv] show ?thesis .
  qed
  from A B C show ?thesis by blast
qed

text \<open>
  A page of 10 bytes fetched into an empty cache is deleted by the size check; a
  transfer that fails leaves the cache empty; and an undersized file that is already at
  the cache path is deleted by the next call that gets as far as the size check.
\<close>

theorem cache_invariant_witness:
  "valid_or_absent (machine (snd (run (download_drugbank
       (example_deps example_config (constant_server 10)) example_args False) empty_machine)))
     example_path
   \<and> valid_or_absent (machine (snd (run (download_drugbank
       (example_deps example_config (failing_server (OtherError ''HTTP 503''))) example_args True)
       empty_machine))) example_path
   \<and> valid_or_absent (machine (snd (run (download_drugbank
       (example_deps example_config (constant_server 10)) example_args False) stale_machine)))
     example_path"
proof -
  let ?w = "\<lparr>machine = empty_machine, events = []\<rparr>"
  let ?s = "\<lparr>machine = stale_machine, events = []\<rparr>"
  let ?d = "example_deps example_config (constant_server 10)"
  let ?f = "example_deps example_config (failing_server (OtherError ''HTTP 503''))"
  have e1: "ensure ?d = cached_ensure [''pystow''] (constant_server 10)"
    and e2: "ensure ?f = cached_ensure [''pystow''] (failing_server (OtherError ''HTTP 503''))"
    by (simp_all add: example_deps_def)
  have v: "version example_args = Some ''5.1.8''"
    by (simp add: example_args_def)
  have i: "valid_or_absent (machine ?w) example_path"
    by (simp add: valid_or_absent_def empty_machine_def)
  define w1 where "w1 = snd (fetch ?d example_args False ?s)"
  have f: "fetch ?d example_args False ?s = (Inr (''5.1.8'', example_path), w1)"
    by (simp add: w1_def fetch_def resolve_version_def prog_defs example_defs)
  from cache_invariant [where d = ?d and a = example_args and frc = False and w = ?w
      and root = "[''pystow'']" and srv = "constant_server 10" and v = "''5.1.8''"
      and q = example_path] e1 v i
  have a: "valid_or_absent (machine (snd (download_drugbank ?d example_args False ?w)))
      example_path"
    by blast
  from cache_invariant [where d = ?f and a = example_args and frc = True and w = ?w
      and root = "[''pystow'']" and srv = "failing_server (OtherError ''HTTP 503'')"
      and v = "''5.1.8''" and q = example_path] e2 v i
  have b: "valid_or_absent (machine (snd (download_drugbank ?f example_args True ?w)))
      example_path"
    by blast
  from cache_invariant [where d = ?d and a = example_args and frc = False and w = ?s
      and v = "''5.1.8''" and p = example_path and ?w1.0 = w1] f
  have c: "valid_or_absent (machine (snd (download_drugbank ?d example_args False ?s)))
      example_path"
    by blast
  from a b c show ?thesis by (simp add: run_def)
qed

section \<open>Version, URL and cache path\<close>

text \<open>
  Claim C3. With an explicit version \<open>v\<close>, a run of \<open>download_drugbank\<close> neither
  imports \<open>bioversions\<close> nor calls \<open>get_version\<close>, and its outcome does not depend on
  what \<open>bioversions\<close> is. Every call of \<open>ensure\<close> in the run has the URL
  \<open>https://go.drugbank.com/releases/<v, each '.' replaced by '-'>/downloads/all-full-database\<close>,
  the path segments of the prefix followed by \<open>v\<close> itself, and the file name
  \<open>full database.xml.zip\<close>; \<open>ensure\<close> is called whenever both credentials resolve. For
  the \<open>ensure\<close> of the specification, the path returned is
  \<open>root/<prefix...>/v/full database.xml.zip\<close>.
\<close>

theorem explicit_version_verbatim:
  assumes "version a = Some v" and "run (download_drugbank d a frc) m = (r, w')"
  shows "(\<forall>ev \<in> set (events w'). \<forall>n. fst ev \<noteq> Import n \<and> fst ev \<noteq> GetVersion n)
       \<and> (\<forall>ec oc. (Ensure ec, oc) \<in> set (events w') \<longrightarrow>
             url ec = ''https://go.drugbank.com/releases/''
                        @ map (\<lambda>c. if c = CHR ''.'' then CHR ''-'' else c) v
                        @ ''/downloads/all-full-database''
           \<and> subkeys ec = normalize_prefix (prefix a) @ [v]
           \<and> name ec = ''full database.xml.zip'')
       \<and> (\<forall>usr pwd. get_config d ''drugbank'' ''username'' (username a) = Inr usr \<longrightarrow>
             get_config d ''drugbank'' ''password'' (password a) = Inr pwd \<longrightarrow>
             (\<exists>oc. (Ensure (ensure_arguments (normalize_prefix (prefix a)) v usr pwd frc), oc)
                     \<in> set (events w')))
       \<and> download_drugbank (d\<lparr>bioversions := b\<rparr>) a frc = download_drugbank d a frc
       \<and> (ensure d = cached_ensure root srv \<longrightarrow>
            (\<forall>p. r = Inr p \<longrightarrow>
               p = root @ normalize_prefix (prefix a) @ [v, ''full database.xml.zip'']))"
proof (intro conjI)
  show "\<forall>ev \<in> set (events w'). \<forall>n. fst ev \<noteq> Import n \<and> fst ev \<noteq> GetVersion n"
    using assms
    by (auto simp: run_def download_defs prog_defs resolve_version_def
        split: sum.splits prod.splits option.splits if_splits)
  show "\<forall>ec oc. (Ensure ec, oc) \<in> set (events w') \<longrightarrow>
             url ec = ''https://go.drugbank.com/releases/''
                        @ map (\<lambda>c. if c = CHR ''.'' then CHR ''-'' else c) v
                        @ ''/downloads/all-full-database''
           \<and> subkeys ec = normalize_prefix (prefix a) @ [v]
           \<and> name ec = ''full database.xml.zip''"
    using assms
    by (auto simp: run_def download_defs prog_defs resolve_version_def ensure_arguments_def
        drugbank_url_def replace_char_def
        split: sum.splits prod.splits option.splits if_splits)
  show "\<forall>usr pwd. get_config d ''drugbank'' ''username'' (username a) = Inr usr \<longrightarrow>
             get_config d ''drugbank'' ''password'' (password a) = Inr pwd \<longrightarrow>
             (\<exists>oc. (Ensure (ensure_arguments (normalize_prefix (prefix a)) v usr pwd frc), oc)
                     \<in> set (events w'))"
    using assms
    by (auto simp: run_def download_defs prog_defs resolve_version_def
        split: sum.splits prod.splits option.splits if_splits)
  show "download_drugbank (d\<lparr>bioversions := b\<rparr>) a frc = download_drugbank d a frc"
    using assms(1)
    by (simp add: download_drugbank_def fetch_def resolve_version_def check_size_bioversions)
  show "ensure d = cached_ensure root srv \<longrightarrow>
            (\<forall>p. r = Inr p \<longrightarrow>
               p = root @ normalize_prefix (prefix a) @ [v, ''full database.xml.zip''])"
    using assms
    by (auto simp: run_def download_defs prog_defs resolve_version_def ensure_arguments_def
        cached_ensure_def cache_path_def
        split: sum.splits prod.splits option.splits if_splits)
qed

theorem explicit_version_verbatim_witness:
  "filter (\<lambda>ev. fst ev = Import ''bioversions'' \<or> fst ev = GetVersion ''drugbank'')
      (events (snd (run (download_drugbank (example_deps example_config (constant_server 5242880))
                 example_args False) empty_machine))) = []
   \<and> fst (run (download_drugbank (example_deps example_config (constant_server 5242880))
                 example_args False) empty_machine)
       = Inr [''pystow'', ''drugbank'', ''5.1.8'', ''full database.xml.zip'']
   \<and> download_drugbank
        ((example_deps example_config (constant_server 5242880))\<lparr>bioversions := Inr example_lookup\<rparr>)
        example_args False
       = download_drugbank (example_deps example_config (constant_server 5242880))
           example_args False"
proof -
  let ?d = "example_deps example_config (constant_server 5242880)"
  let ?run = "run (download_drugbank ?d example_args False) empty_machine"
  have v: "version example_args = Some ''5.1.8''"
    by (simp add: example_args_def)
  have r: "?run = (fst ?run, snd ?run)"
    by simp
  have e: "ensure ?d = cached_ensure [''pystow''] (constant_server 5242880)"
    by (simp add: example_deps_def)
  have ok: "fst ?run = Inr example_path"
    by (simp add: run_def download_defs resolve_version_def prog_defs example_defs)
  note t = explicit_version_verbatim [OF v r, of "Inr example_lookup" "[''pystow'']"
      "constant_server 5242880"]
  from t have "\<forall>ev \<in> set (events (snd ?run)).
      \<forall>n. fst ev \<noteq> Import n \<and> fst ev \<noteq> GetVersion n"
    by blast
  then have a: "filter (\<lambda>ev. fst ev = Import ''bioversions'' \<or> fst ev = GetVersion ''drugbank'')
      (events (snd ?run)) = []"
    by (simp add: filter_empty_conv)
  from t e ok have b: "fst ?run = Inr [''pystow'', ''drugbank'', ''5.1.8'', ''full database.xml.zip'']"
    by (simp add: example_args_def example_path_def)
  from t have c: "download_drugbank (?d\<lparr>bioversions := Inr example_lookup\<rparr>) example_args False
       = download_drugbank ?d example_args False"
    by blast
  from a b c show ?thesis by blast
qed

section \<open>Credentials\<close>

text \<open>
  Claim C4 as stated fails: no version is given, \<open>bioversions\<close> is not installed, and
  no credential is passed or configured. The error raised is the \<open>ImportError\<close> of the
  version lookup, not a missing-configuration error.
\<close>

theorem import_error_precedes_credentials:
  "fst (run (download_drugbank (example_deps no_config (constant_server 10)) no_args False)
          empty_machine) = Inl (ImportError install_hint)
   \<and> fst (run (download_drugbank (example_deps no_config (constant_server 10)) no_args False)
          empty_machine) \<noteq> Inl (ConfigError ''drugbank'' ''username'')
   \<and> username no_args = None \<and> no_config ''drugbank'' ''username'' = None"
  by (simp add: run_def download_defs resolve_version_def prog_defs example_defs)

text \<open>
  Claim C4, as the code has it. Let \<open>get_config\<close> be the lookup of the specification over
  a configuration \<open>cfg\<close>, and let the version be resolved (given, or looked up). Then in
  every call of \<open>ensure\<close> the user name is the argument \<open>username\<close> if there is one and
  the configured value otherwise, and the same for the password; with both passed,
  \<open>ensure\<close> is called with exactly this pair. If a credential is neither passed nor
  configured, the call raises the missing-configuration error of that credential, without
  a call of \<open>ensure\<close> and with the machine as the version resolution left it.
\<close>

theorem credentials_resolved_before_fetch:
  assumes gc: "get_config d = configured cfg"
    and rv: "resolve_version d (version a) \<lparr>machine = m, events = []\<rparr> = (Inr v, w0)"
    and dl: "run (download_drugbank d a frc) m = (r, w')"
  shows "(\<forall>ec oc. (Ensure ec, oc) \<in> set (events w') \<longrightarrow>
            Some (fst (auth ec))
              = (case username a of Some u \<Rightarrow> Some u | None \<Rightarrow> cfg ''drugbank'' ''username'')
          \<and> Some (snd (auth ec))
              = (case password a of Some p \<Rightarrow> Some p | None \<Rightarrow> cfg ''drugbank'' ''password''))
       \<and> (\<forall>u p. username a = Some u \<longrightarrow> password a = Some p \<longrightarrow>
            (\<exists>oc. (Ensure (ensure_arguments (normalize_prefix (prefix a)) v u p frc), oc)
                    \<in> set (events w')))
       \<and> ((username a = None \<and> cfg ''drugbank'' ''username'' = None)
            \<or> (password a = None \<and> cfg ''drugbank'' ''password'' = None) \<longrightarrow>
            (r = Inl (ConfigError ''drugbank'' ''username'')
              \<or> r = Inl (ConfigError ''drugbank'' ''password''))
          \<and> machine w' = machine w0
          \<and> (\<forall>ec oc. (Ensure ec, oc) \<notin> set (events w')))"
proof -
  have e0: "\<And>ec oc. (Ensure ec, oc) \<notin> set (events w0)"
    using resolve_version_frame [OF rv] by simp
  show ?thesis
  proof (intro conjI)
    show "\<forall>ec oc. (Ensure ec, oc) \<in> set (events w') \<longrightarrow>
            Some (fst (auth ec))
              = (case username a of Some u \<Rightarrow> Some u | None \<Rightarrow> cfg ''drugbank'' ''username'')
          \<and> Some (snd (auth ec))
              = (case password a of Some p \<Rightarrow> Some p | None \<Rightarrow> cfg ''drugbank'' ''password'')"
      using gc rv dl e0
      by (auto simp: run_def download_defs prog_defs ensure_arguments_def configured_def
          split: sum.splits prod.splits option.splits if_splits)
    show "\<forall>u p. username a = Some u \<longrightarrow> password a = Some p \<longrightarrow>
            (\<exists>oc. (Ensure (ensure_arguments (normalize_prefix (prefix a)) v u p frc), oc)
                    \<in> set (events w'))"
      using gc rv dl
      by (auto simp: run_def download_defs prog_defs configured_def
          split: sum.splits prod.splits option.splits if_splits)
    show "(username a = None \<and> cfg ''drugbank'' ''username'' = None)
            \<or> (password a = None \<and> cfg ''drugbank'' ''password'' = None) \<longrightarrow>
            (r = Inl (ConfigError ''drugbank'' ''username'')
              \<or> r = Inl (ConfigError ''drugbank'' ''password''))
          \<and> machine w' = machine w0
          \<and> (\<forall>ec oc. (Ensure ec, oc) \<notin> set (events w'))"
      using gc rv dl e0
      by (auto simp: run_def download_defs prog_defs configured_def
          split: sum.splits prod.splits option.splits if_splits)
  qed
qed

text \<open>
  With the credentials \<open>alice\<close>/\<open>secret\<close> configured and \<open>bob\<close>/\<open>hunter2\<close> passed,
  \<open>ensure\<close> is called with \<open>bob\<close>/\<open>hunter2\<close>; with nothing configured and nothing
  passed, the call raises and leaves the machine as it was.
\<close>

theorem credentials_resolved_before_fetch_witness:
  "(Ensure (ensure_arguments [''bio''] ''5.1.8'' ''bob'' ''hunter2'' False), None)
      \<in> set (events (snd (run (download_drugbank
            (example_deps example_config (constant_server 5242880)) explicit_args False)
            empty_machine)))
   \<and> (fst (run (download_drugbank (example_deps no_config (constant_server 5242880))
              example_args False) empty_machine) = Inl (ConfigError ''drugbank'' ''username'')
       \<or> fst (run (download_drugbank (example_deps no_config (constant_server 5242880))
              example_args False) empty_machine) = Inl (ConfigError ''drugbank'' ''password''))
   \<and> machine (snd (run (download_drugbank (example_deps no_config (constant_server 5242880))
              example_args False) empty_machine)) = empty_machine"
proof -
  let ?w = "\<lparr>machine = empty_machine, events = []\<rparr>"
  let ?d = "example_deps example_config (constant_server 5242880)"
  let ?n = "example_deps no_config (constant_server 5242880)"
  let ?r1 = "run (download_drugbank ?d explicit_args False) empty_machine"
  let ?r2 = "run (download_drugbank ?n example_args False) empty_machine"
  have g1: "get_config ?d = configured example_config"
    by (simp add: example_deps_def)
  have g2: "get_config ?n = configured no_config"
    by (simp add: example_deps_def)
  have v1: "resolve_version ?d (version explicit_args) ?w = (Inr ''5.1.8'', ?w)"
    by (simp add: resolve_version_def return_def explicit_args_def)
  have v2: "resolve_version ?n (version example_args) ?w = (Inr ''5.1.8'', ?w)"
    by (simp add: resolve_version_def return_def example_args_def)
  have r1: "?r1 = (fst ?r1, snd ?r1)" and r2: "?r2 = (fst ?r2, snd ?r2)"
    by simp_all
  note t1 = credentials_resolved_before_fetch [OF g1 v1 r1]
  note t2 = credentials_resolved_before_fetch [OF g2 v2 r2]
  from t1 have "\<exists>oc. (Ensure (ensure_arguments (normalize_prefix (prefix explicit_args))
      ''5.1.8'' ''bob'' ''hunter2'' False), oc) \<in> set (events (snd ?r1))"
    by (simp add: explicit_args_def)
  moreover have "\<forall>ev \<in> set (events (snd ?r1)). snd ev = None"
    by (simp add: run_def download_defs resolve_version_def prog_defs example_defs)
  ultimately have a: "(Ensure (ensure_arguments [''bio''] ''5.1.8'' ''bob'' ''hunter2'' False), None)
      \<in> set (events (snd ?r1))"
    by (auto simp: explicit_args_def)
  from t2 have b: "(fst ?r2 = Inl (ConfigError ''drugbank'' ''username'')
       \<or> fst ?r2 = Inl (ConfigError ''drugbank'' ''password''))
     \<and> machine (snd ?r2) = empty_machine"
    by (simp add: example_args_def no_config_def)
  from a b show ?thesis by blast
qed

section \<open>The version lookup is not installed\<close>

text \<open>
  Claim C5. With no version and \<open>import bioversions\<close> raising an \<open>ImportError\<close>, the
  call raises an \<open>ImportError\<close> whose message is the instruction of line 102,
  \<open>must first `pip install bioversions` to get latest DrugBank version automatically\<close>.
  The import is the only call made outside the module: nothing is looked up or fetched,
  and the machine is unchanged.
\<close>

theorem missing_bioversions:
  "version a = None \<Longrightarrow> bioversions d = Inl (ImportError msg) \<Longrightarrow>
   run (download_drugbank d a frc) m =
     (Inl (ImportError
        ''must first `pip install bioversions` to get latest DrugBank version automatically''),
      \<lparr>machine = m, events = [(Import ''bioversions'', Some (ImportError msg))]\<rparr>)"
  by (simp add: run_def download_drugbank_def fetch_def resolve_version_def install_hint_def
      prog_defs)

theorem missing_bioversions_witness:
  "run (download_drugbank (example_deps example_config (constant_server 5242880)) no_args True)
     empty_machine =
     (Inl (ImportError
        ''must first `pip install bioversions` to get latest DrugBank version automatically''),
      \<lparr>machine = empty_machine,
       events = [(Import ''bioversions'', Some (ImportError ''No module named bioversions''))]\<rparr>)"
proof -
  have v: "version no_args = None"
    by (simp add: no_args_def)
  have b: "bioversions (example_deps example_config (constant_server 5242880))
             = Inl (ImportError ''No module named bioversions'')"
    by (simp add: example_deps_def)
  from missing_bioversions [OF v b] show ?thesis .
qed

section \<open>The scope of open_drugbank\<close>

text \<open>
  Claim C6. Let the download have returned a path and \<open>ZipFile\<close> have opened it. If
  the member \<open>full database.xml\<close> is opened too, both handles are open when the caller's
  block starts, and whatever the block does and however it ends (\<open>res\<close> is its value or
  the exception it raised), \<open>open_drugbank\<close> ends with \<open>res\<close> after closing the member
  stream and then the archive: neither handle is open afterwards. If opening the member
  raises, the archive is closed before the error leaves \<open>open_drugbank\<close>.
\<close>

theorem open_drugbank_closes:
  assumes dl: "download_drugbank d a False w = (Inr p, w1)"
    and zf: "open_zip d p w1 = (Inr z, w2)"
  shows "(\<forall>f w3 res w4.
            open_member z ''full database.xml'' w2 = (Inr f, w3) \<longrightarrow> block f w3 = (res, w4) \<longrightarrow>
              zip_id z \<in> open_handles (machine w3)
            \<and> stream_id f \<in> open_handles (machine w3)
            \<and> open_drugbank d a block w = (res, close (zip_id z) (close (stream_id f) w4))
            \<and> zip_id z \<notin> open_handles (machine (snd (open_drugbank d a block w)))
            \<and> stream_id f \<notin> open_handles (machine (snd (open_drugbank d a block w))))
       \<and> (\<forall>e w3.
            open_member z ''full database.xml'' w2 = (Inl e, w3) \<longrightarrow>
              open_drugbank d a block w = (Inl e, close (zip_id z) w3)
            \<and> zip_id z \<notin> open_handles (machine (snd (open_drugbank d a block w))))"
proof (intro conjI allI impI)
  fix f w3 res w4
  assume om: "open_member z ''full database.xml'' w2 = (Inr f, w3)"
    and bl: "block f w3 = (res, w4)"
  show "zip_id z \<in> open_handles (machine w3)"
    using zf om
    by (auto simp: open_zip_def open_member_def new_handle_def external_def
        split: sum.splits option.splits prod.splits)
  show "stream_id f \<in> open_handles (machine w3)"
    using om
    by (auto simp: open_member_def new_handle_def external_def
        split: sum.splits option.splits prod.splits)
  show eq: "open_drugbank d a block w = (res, close (zip_id z) (close (stream_id f) w4))"
    using dl zf om bl by (simp add: open_drugbank_def with_closing_def bind_prog_def)
  show "zip_id z \<notin> open_handles (machine (snd (open_drugbank d a block w)))"
    by (simp add: eq close_def)
  show "stream_id f \<notin> open_handles (machine (snd (open_drugbank d a block w)))"
    by (simp add: eq close_def)
next
  fix e w3
  assume om: "open_member z ''full database.xml'' w2 = (Inl e, w3)"
  show eq: "open_drugbank d a block w = (Inl e, close (zip_id z) w3)"
    using dl zf om by (simp add: open_drugbank_def with_closing_def bind_prog_def)
  show "zip_id z \<notin> open_handles (machine (snd (open_drugbank d a block w)))"
    by (simp add: eq close_def)
qed

theorem open_drugbank_closes_witness:
  "fst (run (open_drugbank (example_deps example_config (constant_server 5242880)) example_args
              raising_block) empty_machine) = Inl (OtherError ''interrupted'')
   \<and> open_handles (machine (snd (run (open_drugbank
        (example_deps example_config (constant_server 5242880)) example_args raising_block)
        empty_machine))) = {}
   \<and> fst (run (open_drugbank (example_deps example_config (constant_server 5242880)) example_args
              reading_block) empty_machine) = Inr ''<drugbank/>''
   \<and> open_handles (machine (snd (run (open_drugbank
        (example_deps example_config (constant_server 5242880)) example_args reading_block)
        empty_machine))) = {}"
proof -
  let ?w = "\<lparr>machine = empty_machine, events = []\<rparr>"
  let ?d = "example_deps example_config (constant_server 5242880)"
  define w1 where "w1 = snd (download_drugbank ?d example_args False ?w)"
  define z where "z = \<lparr>zip_id = 0, members = [''full database.xml'' \<mapsto> ''<drugbank/>'']\<rparr>"
  define w2 where "w2 = snd (open_zip ?d example_path w1)"
  define f where "f = \<lparr>stream_id = 1, content = ''<drugbank/>''\<rparr>"
  define w3 where "w3 = snd (open_member z ''full database.xml'' w2)"
  have dl: "download_drugbank ?d example_args False ?w = (Inr example_path, w1)"
    by (simp add: w1_def download_defs resolve_version_def prog_defs example_defs)
  have m1: "machine w1 = empty_machine\<lparr>files := [example_path \<mapsto> 5242880],
      transfers := [drugbank_url ''5.1.8'']\<rparr>"
    by (simp add: w1_def download_defs resolve_version_def prog_defs example_defs)
  have zf: "open_zip ?d example_path w1 = (Inr z, w2)"
    by (simp add: w2_def z_def m1 open_zip_def external_def new_handle_def outcome_def
        example_deps_def example_archive_def empty_machine_def)
  have m2: "machine w2 = (machine w1)\<lparr>open_handles := {0}, next_handle := 1\<rparr>"
    by (simp add: w2_def z_def m1 open_zip_def external_def new_handle_def outcome_def
        example_deps_def example_archive_def empty_machine_def)
  have om: "open_member z ''full database.xml'' w2 = (Inr f, w3)"
    by (simp add: w3_def f_def z_def m1 m2 open_member_def external_def new_handle_def
        outcome_def empty_machine_def)
  have m3: "machine w3 = (machine w1)\<lparr>open_handles := {0, 1}, next_handle := 2\<rparr>"
    by (auto simp: w3_def f_def z_def m1 m2 open_member_def external_def new_handle_def
        outcome_def empty_machine_def)
  have b1: "raising_block f w3 = (Inl (OtherError ''interrupted''), w3)"
    by (simp add: raising_block_def raise_def)
  have b2: "reading_block f w3 = (Inr ''<drugbank/>'', w3)"
    by (simp add: reading_block_def return_def f_def)
  from open_drugbank_closes [OF dl zf, of raising_block] om b1
  have r1: "open_drugbank ?d example_args raising_block ?w
      = (Inl (OtherError ''interrupted''), close (zip_id z) (close (stream_id f) w3))"
    by blast
  from open_drugbank_closes [OF dl zf, of reading_block] om b2
  have r2: "open_drugbank ?d example_args reading_block ?w
      = (Inr ''<drugbank/>'', close (zip_id z) (close (stream_id f) w3))"
    by blast
  have c: "open_handles (machine (close (zip_id z) (close (stream_id f) w3))) = {}"
    by (auto simp: close_def m3 m1 z_def f_def empty_machine_def)
  from r1 r2 c show ?thesis by (simp add: run_def)
qed

section \<open>Caching\<close>

text \<open>
  Claim C7, as the code has it. Let \<open>ensure\<close> be the cached download of the
  specification and let the version resolve to \<open>v\<close>. If a call with \<open>force=False\<close>
  returns a path, then it made exactly one transfer if the cache path was empty and none
  if it was not; and in a second call with the same arguments, if the version resolves to
  \<open>v\<close> again and the file at the path is still the one the first call left, the same
  path is returned and the machine stays as the version resolution left it: no transfer.
  A call with \<open>force=True\<close> whose credentials resolve makes exactly one transfer,
  whatever the cache holds.
\<close>

theorem cached_download:
  assumes ens: "ensure d = cached_ensure root srv"
    and rv: "resolve_version d (version a) \<lparr>machine = m, events = []\<rparr> = (Inr v, w0)"
  shows "(\<forall>p w1. run (download_drugbank d a False) m = (Inr p, w1) \<longrightarrow>
            (files (machine w0) p = None \<longrightarrow>
               transfers (machine w1) = transfers (machine w0) @ [drugbank_url v])
          \<and> (files (machine w0) p \<noteq> None \<longrightarrow> machine w1 = machine w0)
          \<and> (\<forall>w2. resolve_version d (version a) \<lparr>machine = machine w1, events = []\<rparr>
                       = (Inr v, w2) \<longrightarrow>
                  files (machine w2) p = files (machine w1) p \<longrightarrow>
                  fst (run (download_drugbank d a False) (machine w1)) = Inr p
                \<and> machine (snd (run (download_drugbank d a False) (machine w1))) = machine w2))
       \<and> (\<forall>usr pwd. get_config d ''drugbank'' ''username'' (username a) = Inr usr \<longrightarrow>
            get_config d ''drugbank'' ''password'' (password a) = Inr pwd \<longrightarrow>
            transfers (machine (snd (run (download_drugbank d a True) m)))
              = transfers (machine w0) @ [drugbank_url v])"
proof (intro conjI allI impI)
  fix p w1
  assume dl: "run (download_drugbank d a False) m = (Inr p, w1)"
  from download_success [OF rv dl [unfolded run_def]]
  obtain usr pwd n where gu: "get_config d ''drugbank'' ''username'' (username a) = Inr usr"
    and gp: "get_config d ''drugbank'' ''password'' (password a) = Inr pwd"
    and en: "ensure d (ensure_arguments (normalize_prefix (prefix a)) v usr pwd False) (machine w0)
               = (Inr p, machine w1)"
    and sz: "files (machine w1) p = Some n" "5 * 1024 * 1024 \<le> n"
    by blast
  let ?ea = "ensure_arguments (normalize_prefix (prefix a)) v usr pwd False"
  have pth: "p = cache_path root ?ea"
    using en by (auto simp: ens cached_ensure_def split: if_splits sum.splits)
  have m1: "machine w1 = snd (cached_ensure root srv ?ea (machine w0))"
    using en by (simp add: ens)
  have ok: "fst (cached_ensure root srv ?ea (machine w0)) = Inr p"
    using en by (simp add: ens)
  {
    assume "files (machine w0) p = None"
    then show "transfers (machine w1) = transfers (machine w0) @ [drugbank_url v]"
      using ok unfolding m1 pth
      by (auto simp: cached_ensure_def ensure_arguments_def split: if_splits sum.splits)
  }
  {
    assume "files (machine w0) p \<noteq> None"
    then show "machine w1 = machine w0"
      unfolding m1 pth
      by (auto simp: cached_ensure_def ensure_arguments_def split: if_splits sum.splits)
  }
  {
    fix w2
    assume rv2: "resolve_version d (version a) \<lparr>machine = machine w1, events = []\<rparr> = (Inr v, w2)"
      and f2: "files (machine w2) p = files (machine w1) p"
    have en2: "ensure d ?ea (machine w2) = (Inr p, machine w2)"
      using sz pth f2 by (simp add: ens cached_ensure_def ensure_arguments_def)
    from download_resolved [OF rv2 gu gp en2] sz f2
    show "fst (run (download_drugbank d a False) (machine w1)) = Inr p"
      and "machine (snd (run (download_drugbank d a False) (machine w1))) = machine w2"
      by (simp_all add: run_def)
  }
next
  fix usr pwd
  assume gu: "get_config d ''drugbank'' ''username'' (username a) = Inr usr"
    and gp: "get_config d ''drugbank'' ''password'' (password a) = Inr pwd"
  let ?ea = "ensure_arguments (normalize_prefix (prefix a)) v usr pwd True"
  obtain r m1 where en: "ensure d ?ea (machine w0) = (r, m1)"
    by (cases "ensure d ?ea (machine w0)")
  have "m1 = snd (cached_ensure root srv ?ea (machine w0))"
    using en by (simp add: ens)
  then have tr: "transfers m1 = transfers (machine w0) @ [drugbank_url v]"
    by (auto simp: cached_ensure_def ensure_arguments_def split: sum.splits)
  from download_resolved(1) [OF rv gu gp en] tr
  show "transfers (machine (snd (run (download_drugbank d a True) m)))
              = transfers (machine w0) @ [drugbank_url v]"
    by (auto simp: run_def split: sum.splits option.splits)
qed

theorem cached_download_witness:
  "fst (run (download_drugbank (example_deps example_config (constant_server 5242880))
          example_args False) empty_machine) = Inr example_path
   \<and> transfers (machine (snd (run (download_drugbank
        (example_deps example_config (constant_server 5242880)) example_args False)
        empty_machine))) = [drugbank_url ''5.1.8'']
   \<and> transfers (machine (snd (run (download_drugbank
        (example_deps example_config (constant_server 5242880)) example_args False)
        (machine (snd (run (download_drugbank
           (example_deps example_config (constant_server 5242880)) example_args False)
           empty_machine)))))) = [drugbank_url ''5.1.8'']
   \<and> transfers (machine (snd (run (download_drugbank
        (example_deps example_config (constant_server 5242880)) example_args True)
        empty_machine))) = [drugbank_url ''5.1.8'']"
proof -
  let ?d = "example_deps example_config (constant_server 5242880)"
  let ?w = "\<lparr>machine = empty_machine, events = []\<rparr>"
  let ?r1 = "run (download_drugbank ?d example_args False) empty_machine"
  let ?w2 = "\<lparr>machine = machine (snd ?r1), events = []\<rparr>"
  have e: "ensure ?d = cached_ensure [''pystow''] (constant_server 5242880)"
    by (simp add: example_deps_def)
  have v: "resolve_version ?d (version example_args) ?w = (Inr ''5.1.8'', ?w)"
    by (simp add: resolve_version_def return_def example_args_def)
  have ok: "fst ?r1 = Inr example_path"
    by (simp add: run_def download_defs resolve_version_def prog_defs example_defs)
  then have r1: "?r1 = (Inr example_path, snd ?r1)"
    by (simp add: prod_eq_iff)
  have cold: "files (machine ?w) example_path = None"
    by (simp add: empty_machine_def)
  have v2: "resolve_version ?d (version example_args) ?w2 = (Inr ''5.1.8'', ?w2)"
    by (simp add: resolve_version_def return_def example_args_def)
  have same: "files (machine ?w2) example_path = files (machine (snd ?r1)) example_path"
    by simp
  have gu: "get_config ?d ''drugbank'' ''username'' (username example_args) = Inr ''alice''"
    and gp: "get_config ?d ''drugbank'' ''password'' (password example_args) = Inr ''secret''"
    by (simp_all add: example_defs)
  note t = cached_download [OF e v]
  from t r1 cold have a: "transfers (machine (snd ?r1)) = [drugbank_url ''5.1.8'']"
    by (auto simp: empty_machine_def)
  from t r1 have "\<forall>w2. resolve_version ?d (version example_args) ?w2 = (Inr ''5.1.8'', w2) \<longrightarrow>
      files (machine w2) example_path = files (machine (snd ?r1)) example_path \<longrightarrow>
      machine (snd (run (download_drugbank ?d example_args False) (machine (snd ?r1))))
        = machine w2"
    by blast
  with v2 same have b: "machine (snd (run (download_drugbank ?d example_args False)
      (machine (snd ?r1)))) = machine (snd ?r1)"
    by fastforce
  from t gu gp have c: "transfers (machine (snd (run (download_drugbank ?d example_args True)
      empty_machine))) = [drugbank_url ''5.1.8'']"
    by (auto simp: empty_machine_def)
  from ok a b c show ?thesis by simp
qed

text \<open>
  Claim C7 as stated fails: the server answers with a page of 10 bytes (an account that
  is not approved). The first call with \<open>force=False\<close> transfers it, deletes it and
  raises; the second call with the same arguments transfers again: two transfers.
\<close>

theorem undersized_download_is_repeated:
  "fst (run (download_drugbank (example_deps example_config (constant_server 10))
          example_args False) empty_machine)
     = Inl (RuntimeError (unapproved_message
          (example_deps example_config (constant_server 10)) ''5.1.8''))
   \<and> transfers (machine (snd (run (download_drugbank
        (example_deps example_config (constant_server 10)) example_args False)
        empty_machine))) = [drugbank_url ''5.1.8'']
   \<and> transfers (machine (snd (run (download_drugbank
        (example_deps example_config (constant_server 10)) example_args False)
        (machine (snd (run (download_drugbank
           (example_deps example_config (constant_server 10)) example_args False)
           empty_machine))))))
     = [drugbank_url ''5.1.8'', drugbank_url ''5.1.8'']"
  by (simp add: run_def download_defs resolve_version_def prog_defs example_defs)

section \<open>Errors of the libraries\<close>

text \<open>
  Claim C9. In a run of any of the four functions, every error raised by a call outside
  the module (\<open>get_version\<close>, \<open>get_config\<close>, \<open>ensure\<close>, \<open>stat\<close>, \<open>unlink\<close>,
  \<open>ZipFile\<close>, the opening of the member, the XML parser, the caller's block inside
  \<open>open_drugbank\<close>) is the error the run ends with, unchanged. The one exception is the
  \<open>ImportError\<close> of \<open>import bioversions\<close>, which line 100 catches.
\<close>

theorem library_errors_propagate:
  "unchanged_errors (run (download_drugbank d a frc) m)
   \<and> unchanged_errors (run (open_drugbank d a (caller_block g)) m)
   \<and> unchanged_errors (run (parse_drugbank d a) m)
   \<and> unchanged_errors (run (get_drugbank_root d a) m)"
proof -
  have "\<And>f. faithful (caller_block g f)"
    by (simp add: caller_block_def faithful_external)
  then show ?thesis
    by (intro conjI faithful_run faithful_download faithful_open faithful_parse faithful_root)
qed

text \<open>
  A server that answers with an HTTP error, and a caller's block that fails while it
  reads: both errors are what the run ends with.
\<close>

theorem library_errors_propagate_witness:
  "fst (run (download_drugbank
          (example_deps example_config (failing_server (OtherError ''HTTP 503'')))
          example_args False) empty_machine) = Inl (OtherError ''HTTP 503'')
   \<and> fst (run (open_drugbank (example_deps example_config (constant_server 5242880))
          example_args (caller_block failing_block)) empty_machine)
       = Inl (OtherError ''disk full'')"
proof -
  let ?f = "example_deps example_config (failing_server (OtherError ''HTTP 503''))"
  let ?d = "example_deps example_config (constant_server 5242880)"
  let ?r1 = "run (download_drugbank ?f example_args False) empty_machine"
  let ?r2 = "run (open_drugbank ?d example_args (caller_block failing_block)) empty_machine"
  have e1: "(Ensure (ensure_arguments [''drugbank''] ''5.1.8'' ''alice'' ''secret'' False),
             Some (OtherError ''HTTP 503'')) \<in> set (events (snd ?r1))"
    by (simp add: run_def download_defs resolve_version_def prog_defs example_defs)
  have e2: "(Block 1, Some (OtherError ''disk full'')) \<in> set (events (snd ?r2))"
    by (simp add: run_def open_drugbank_def with_closing_def open_zip_def open_member_def
        close_def new_handle_def caller_block_def download_defs resolve_version_def prog_defs
        example_defs)
  from library_errors_propagate [where d = ?f and a = example_args and frc = False
      and m = empty_machine and g = failing_block]
  have u1: "unchanged_errors ?r1"
    by blast
  from library_errors_propagate [where d = ?d and a = example_args and frc = False
      and m = empty_machine and g = failing_block]
  have u2: "unchanged_errors ?r2"
    by blast
  from unchanged_errorsD [OF u1 e1] unchanged_errorsD [OF u2 e2]
  show ?thesis by simp
qed

section \<open>The four public functions\<close>

text \<open>
  Claim C8, as the code has it. \<open>download_drugbank\<close> has the parameters \<open>username\<close>,
  \<open>password\<close>, \<open>version\<close>, \<open>prefix\<close> and \<open>force\<close>; the other three have the first
  four and no \<open>force\<close>. \<open>get_drugbank_root\<close> is \<open>parse_drugbank\<close> with the same
  arguments followed by \<open>getroot\<close>; \<open>parse_drugbank\<close> is \<open>open_drugbank\<close> with the same
  arguments and the XML parser as the block; \<open>open_drugbank\<close> first calls
  \<open>download_drugbank\<close> with the same arguments and \<open>force=False\<close>, ends with its error
  if it raises, and otherwise opens the path it returned. So the calls of a run of
  \<open>get_drugbank_root\<close> begin with the calls of \<open>download_drugbank\<close>.
\<close>

theorem layered_operations:
  "set get_drugbank_root_params = {''username'', ''password'', ''version'', ''prefix''}
   \<and> parse_drugbank_params = get_drugbank_root_params
   \<and> open_drugbank_params = parse_drugbank_params
   \<and> download_drugbank_params = open_drugbank_params @ [''force'']
   \<and> get_drugbank_root d a w
       = (case parse_drugbank d a w of (r, w') \<Rightarrow> (map_sum id getroot r, w'))
   \<and> parse_drugbank d a w
       = open_drugbank d a
           (\<lambda>f. external (Parse (stream_id f)) (\<lambda>m. (xml_parse d (content f), m))) w
   \<and> (\<exists>rest. events (snd (get_drugbank_root d a w))
                = events (snd (download_drugbank d a False w)) @ rest)
   \<and> (\<forall>e w'. download_drugbank d a False w = (Inl e, w') \<longrightarrow>
         open_drugbank d a block w = (Inl e, w'))
   \<and> (\<forall>p w'. download_drugbank d a False w = (Inr p, w') \<longrightarrow>
         open_drugbank d a block w
           = with_closing (open_zip d p) zip_id
               (\<lambda>z. with_closing (open_member z ''full database.xml'') stream_id block) w')"
proof (intro conjI allI impI)
  show "set get_drugbank_root_params = {''username'', ''password'', ''version'', ''prefix''}"
    by (simp add: get_drugbank_root_params_def)
  show "parse_drugbank_params = get_drugbank_root_params"
    by (simp add: parse_drugbank_params_def get_drugbank_root_params_def)
  show "open_drugbank_params = parse_drugbank_params"
    by (simp add: parse_drugbank_params_def open_drugbank_params_def)
  show "download_drugbank_params = open_drugbank_params @ [''force'']"
    by (simp add: download_drugbank_params_def open_drugbank_params_def)
  show "get_drugbank_root d a w
       = (case parse_drugbank d a w of (r, w') \<Rightarrow> (map_sum id getroot r, w'))"
    by (simp add: get_drugbank_root_def bind_prog_def return_def
        split: prod.splits sum.splits)
  show "parse_drugbank d a w
       = open_drugbank d a
           (\<lambda>f. external (Parse (stream_id f)) (\<lambda>m. (xml_parse d (content f), m))) w"
    by (simp add: parse_drugbank_def)
  show "\<exists>rest. events (snd (get_drugbank_root d a w))
                = events (snd (download_drugbank d a False w)) @ rest"
    by (rule root_after_download)
next
  fix e w'
  assume "download_drugbank d a False w = (Inl e, w')"
  then show "open_drugbank d a block w = (Inl e, w')"
    by (simp add: open_drugbank_def bind_prog_def)
next
  fix p w'
  assume "download_drugbank d a False w = (Inr p, w')"
  then show "open_drugbank d a block w
           = with_closing (open_zip d p) zip_id
               (\<lambda>z. with_closing (open_member z ''full database.xml'') stream_id block) w'"
    by (simp add: open_drugbank_def bind_prog_def)
qed

text \<open>
  A cache that already holds a valid archive with the member \<open><drugbank/>\<close>:
  \<open>get_drugbank_root\<close> returns the element \<open>drugbank\<close>. Without credentials,
  \<open>open_drugbank\<close> ends with the error of \<open>download_drugbank\<close>.
\<close>

theorem layered_operations_witness:
  "fst (run (get_drugbank_root (example_deps example_config (constant_server 5242880))
          example_args) empty_machine) = Inr (Element ''drugbank'' [])
   \<and> fst (run (open_drugbank (example_deps no_config (constant_server 5242880))
          example_args reading_block) empty_machine) = Inl (ConfigError ''drugbank'' ''username'')"
proof -
  let ?w = "\<lparr>machine = empty_machine, events = []\<rparr>"
  let ?d = "example_deps example_config (constant_server 5242880)"
  let ?n = "example_deps no_config (constant_server 5242880)"
  have p: "fst (parse_drugbank ?d example_args ?w) = Inr (ElementTree (Element ''drugbank'' []))"
    by (simp add: parse_drugbank_def open_drugbank_def with_closing_def open_zip_def
        open_member_def close_def new_handle_def download_defs resolve_version_def prog_defs
        example_defs)
  define w1 where "w1 = snd (download_drugbank ?n example_args False ?w)"
  have dl: "download_drugbank ?n example_args False ?w
      = (Inl (ConfigError ''drugbank'' ''username''), w1)"
    by (simp add: w1_def download_defs resolve_version_def prog_defs example_defs)
  from layered_operations [where d = ?d and a = example_args and w = ?w
      and block = reading_block]
  have "get_drugbank_root ?d example_args ?w
      = (case parse_drugbank ?d example_args ?w of (r, w') \<Rightarrow> (map_sum id getroot r, w'))"
    by blast
  with p have a: "fst (get_drugbank_root ?d example_args ?w) = Inr (Element ''drugbank'' [])"
    by (simp add: split_beta)
  from layered_operations [where d = ?n and a = example_args and w = ?w
      and block = reading_block] dl
  have b: "open_drugbank ?n example_args reading_block ?w
      = (Inl (ConfigError ''drugbank'' ''username''), w1)"
    by blast
  from a b show ?thesis by (simp add: run_def)
qed

text \<open>
  Claim C8 as stated fails: a call with the keyword \<open>force\<close> is accepted by
  \<open>download_drugbank\<close> and is a \<open>TypeError\<close> for the other three functions.
\<close>

theorem force_only_in_download_drugbank:
  "check_keywords download_drugbank_params [''force''] = Inr ()
   \<and> check_keywords open_drugbank_params [''force''] = Inl (TypeError ''force'')
   \<and> check_keywords parse_drugbank_params [''force''] = Inl (TypeError ''force'')
   \<and> check_keywords get_drugbank_root_params [''force''] = Inl (TypeError ''force'')"
  by (simp add: check_keywords_def download_drugbank_params_def open_drugbank_params_def
      parse_drugbank_params_def get_drugbank_root_params_def)

section \<open>The prefix\<close>

text \<open>
  Claim C10. \<open>download_drugbank\<close> with the prefix \<open>s\<close> given as a string is the same
  state transformer as with the one-element sequence \<open>[s]\<close>, and with no prefix the same
  as with \<open>["drugbank"]\<close>: same result, same machine, same calls.
\<close>

theorem prefix_normal_forms:
  "download_drugbank d (a\<lparr>prefix := PrefixStr s\<rparr>) frc
     = download_drugbank d (a\<lparr>prefix := PrefixSeq [s]\<rparr>) frc
   \<and> download_drugbank d (a\<lparr>prefix := PrefixNone\<rparr>) frc
     = download_drugbank d (a\<lparr>prefix := PrefixSeq [''drugbank'']\<rparr>) frc"
  by (simp add: download_drugbank_def fetch_def)

theorem prefix_normal_forms_witness:
  "fst (run (download_drugbank (example_deps example_config (constant_server 5242880))
          (example_args\<lparr>prefix := PrefixStr ''bio''\<rparr>) False) empty_machine)
     = Inr [''pystow'', ''bio'', ''5.1.8'', ''full database.xml.zip'']
   \<and> fst (run (download_drugbank (example_deps example_config (constant_server 5242880))
          (example_args\<lparr>prefix := PrefixNone\<rparr>) False) empty_machine)
     = Inr [''pystow'', ''drugbank'', ''5.1.8'', ''full database.xml.zip'']"
proof -
  let ?d = "example_deps example_config (constant_server 5242880)"
  have a: "fst (run (download_drugbank ?d (example_args\<lparr>prefix := PrefixSeq [''bio'']\<rparr>) False)
             empty_machine) = Inr [''pystow'', ''bio'', ''5.1.8'', ''full database.xml.zip'']"
    by (simp add: run_def download_defs resolve_version_def prog_defs example_defs)
  have b: "fst (run (download_drugbank ?d (example_args\<lparr>prefix := PrefixSeq [''drugbank'']\<rparr>) False)
             empty_machine) = Inr [''pystow'', ''drugbank'', ''5.1.8'', ''full database.xml.zip'']"
    by (simp add: run_def download_defs resolve_version_def prog_defs example_defs)
  from a b prefix_normal_forms [where d = ?d and a = example_args and s = "''bio''" and frc = False]
  show ?thesis by simp
qed

end
